theory Spec2Isabelle
  imports Main "HOL-Library.Word"
begin

section \<open>Supercamera TCP stream receiver: framed-stream decoder\<close>

text \<open>
  A shallow embedding of \<^verbatim>\<open>scripts/stream_receiver.py\<close>: the exact-read loop
  \<^verbatim>\<open>recv_exact\<close>, the header parser \<^verbatim>\<open>parse_header\<close> and the three lines of
  \<^verbatim>\<open>run_receiver\<close> that extract one frame from the connection. Python integers are
  \<open>int\<close>, \<^verbatim>\<open>bytes\<close> objects are lists of 8-bit words, an exception is the left
  injection of a sum, and the socket is an explicit state that every read returns updated.
\<close>

subsection \<open>Bytes, exceptions and the socket\<close>

type_synonym byte = "8 word"
type_synonym bytes = "byte list"

text \<open>
  The exceptions the receiver can raise: \<^verbatim>\<open>ConnectionError(msg)\<close>,
  \<^verbatim>\<open>struct.error\<close> for a buffer of the wrong size, and \<^verbatim>\<open>ValueError\<close> whose
  message is a fixed prefix followed by the formatted offending value.
\<close>

datatype error =
    ConnectionError string
  | StructError
  | ValueError string int

text \<open>
  The connection as the receiver sees it. \<open>pending\<close> holds the chunks in which the
  transport will deliver the remaining bytes, in order; once it is exhausted the peer has
  closed the connection. \<open>recv_log\<close> records the buffer size of every \<^verbatim>\<open>recv\<close>
  call made so far.
\<close>

record socket =
  pending :: "bytes list"
  recv_log :: "int list"

text \<open>
  \<^verbatim>\<open>sock.recv(bufsize)\<close>: at most \<open>bufsize\<close> bytes of the chunk that arrives next; what
  does not fit stays for the following call. The empty result means the peer has closed.
\<close>

definition recv :: "socket \<Rightarrow> int \<Rightarrow> bytes \<times> socket" where
  "recv sock bufsize =
     (let sock' = sock\<lparr>recv_log := recv_log sock @ [bufsize]\<rparr> in
      case pending sock of
        [] \<Rightarrow> ([], sock')
      | c # cs \<Rightarrow>
          if int (length c) \<le> bufsize then (c, sock'\<lparr>pending := cs\<rparr>)
          else (take (nat bufsize) c, sock'\<lparr>pending := drop (nat bufsize) c # cs\<rparr>))"

text \<open>The bytes still to come, whatever their chunking, and a transport that never
  delivers an empty chunk before the close.\<close>

definition stream_bytes :: "socket \<Rightarrow> bytes" where
  "stream_bytes sock = concat (pending sock)"

definition nonempty_chunks :: "socket \<Rightarrow> bool" where
  "nonempty_chunks sock = list_all (\<lambda>c. c \<noteq> []) (pending sock)"

subsection \<open>Protocol constants and the header layout\<close>

definition STREAM_MAGIC :: int where "STREAM_MAGIC = 0x47535643"
definition STREAM_VERSION :: int where "STREAM_VERSION = 1"
definition STREAM_CODEC_JPEG :: int where "STREAM_CODEC_JPEG = 1"
definition MAX_PAYLOAD_SIZE :: int where "MAX_PAYLOAD_SIZE = 1024 * 1024"

text \<open>
  The format characters of \<^verbatim>\<open>struct\<close> used by \<^verbatim>\<open>HEADER_FORMAT = "!IBBHHHIQI"\<close>.
  The leading \<^verbatim>\<open>!\<close> selects network byte order (big-endian), standard sizes and no
  padding, which is what \<open>calcsize\<close> and \<open>unpack\<close> below implement.
\<close>

datatype fmt_code = B | H | I | Q

fun fmt_size :: "fmt_code \<Rightarrow> nat" where
  "fmt_size B = 1"
| "fmt_size H = 2"
| "fmt_size I = 4"
| "fmt_size Q = 8"

definition HEADER_FORMAT :: "fmt_code list" where
  "HEADER_FORMAT = [I, B, B, H, H, H, I, Q, I]"

definition calcsize :: "fmt_code list \<Rightarrow> nat" where
  "calcsize fmt = sum_list (map fmt_size fmt)"

definition HEADER_SIZE :: int where
  "HEADER_SIZE = int (calcsize HEADER_FORMAT)"

text \<open>An unsigned big-endian integer: the most significant byte comes first.\<close>

definition be_uint :: "bytes \<Rightarrow> int" where
  "be_uint bs = foldl (\<lambda>acc b. acc * 256 + uint b) 0 bs"

fun unpack_fields :: "fmt_code list \<Rightarrow> bytes \<Rightarrow> int list" where
  "unpack_fields [] raw = []"
| "unpack_fields (c # cs) raw =
     be_uint (take (fmt_size c) raw) # unpack_fields cs (drop (fmt_size c) raw)"

text \<open>\<^verbatim>\<open>struct.unpack(fmt, buffer)\<close> raises unless the buffer has exactly the size
  the format requires.\<close>

definition unpack :: "fmt_code list \<Rightarrow> bytes \<Rightarrow> error + int list" where
  "unpack fmt buffer =
     (if length buffer \<noteq> calcsize fmt then Inl StructError
      else Inr (unpack_fields fmt buffer))"

subsection \<open>The receiver\<close>

text \<open>
  \<^verbatim>\<open>recv_exact\<close>: the loop reads until \<open>remaining\<close> reaches zero and raises as soon as
  one read returns no data.
\<close>

function recv_exact_loop :: "socket \<Rightarrow> bytes list \<Rightarrow> int \<Rightarrow> (error + bytes) \<times> socket" where
  "recv_exact_loop sock chunks remaining =
     (if remaining > 0 then
        (case recv sock remaining of
           (data, sock') \<Rightarrow>
             if data = [] then (Inl (ConnectionError ''peer closed the connection''), sock')
             else recv_exact_loop sock' (chunks @ [data]) (remaining - int (length data)))
      else (Inr (concat chunks), sock))"
  by pat_completeness auto
termination
  by (relation "measure (\<lambda>(sock, chunks, remaining). nat remaining)") auto

declare recv_exact_loop.simps [simp del]

definition recv_exact :: "socket \<Rightarrow> int \<Rightarrow> (error + bytes) \<times> socket" where
  "recv_exact sock sz = recv_exact_loop sock [] sz"

text \<open>
  \<^verbatim>\<open>parse_header\<close>: the nine unpacked fields are checked in the order of the source;
  the flags and the reserved field are bound to \<^verbatim>\<open>_flags\<close> and \<^verbatim>\<open>_reserved\<close> and
  not used again. The last equation is the tuple assignment failing on a wrong field count.
\<close>

fun parse_header_fields :: "int list \<Rightarrow> error + (int \<times> int \<times> int \<times> int)" where
  "parse_header_fields
     [magic, version, codec, flags, source_id, reserved, frame_id, timestamp_us, payload_size] =
     (if magic \<noteq> STREAM_MAGIC then Inl (ValueError ''bad magic: 0x'' magic)
      else if version \<noteq> STREAM_VERSION then Inl (ValueError ''unsupported version: '' version)
      else if codec \<noteq> STREAM_CODEC_JPEG then Inl (ValueError ''unsupported codec: '' codec)
      else if payload_size > MAX_PAYLOAD_SIZE then
        Inl (ValueError ''payload too large: '' payload_size)
      else Inr (source_id, frame_id, timestamp_us, payload_size))"
| "parse_header_fields unpacked = Inl (ValueError ''unpack: '' (int (length unpacked)))"

definition parse_header :: "bytes \<Rightarrow> error + (int \<times> int \<times> int \<times> int)" where
  "parse_header raw_header =
     (case unpack HEADER_FORMAT raw_header of
        Inl e \<Rightarrow> Inl e
      | Inr unpacked \<Rightarrow> parse_header_fields unpacked)"

text \<open>
  One frame extraction, the first three statements of the loop body of
  \<^verbatim>\<open>run_receiver\<close>: read the header, parse and validate it, read the payload. The
  result is the tuple of the variables \<open>source_id\<close>, \<open>frame_id\<close>, \<open>timestamp_us\<close> and
  \<open>payload\<close> that the rest of the loop body uses.
\<close>

type_synonym frame = "int \<times> int \<times> int \<times> bytes"

definition recv_frame :: "socket \<Rightarrow> (error + frame) \<times> socket" where
  "recv_frame sock =
     (case recv_exact sock HEADER_SIZE of
        (Inl e, sock1) \<Rightarrow> (Inl e, sock1)
      | (Inr raw_header, sock1) \<Rightarrow>
          (case parse_header raw_header of
             Inl e \<Rightarrow> (Inl e, sock1)
           | Inr (source_id, frame_id, timestamp_us, payload_size) \<Rightarrow>
               (case recv_exact sock1 payload_size of
                  (Inl e, sock2) \<Rightarrow> (Inl e, sock2)
                | (Inr payload, sock2) \<Rightarrow>
                    (Inr (source_id, frame_id, timestamp_us, payload), sock2))))"

text \<open>
  The \<^verbatim>\<open>while True\<close> loop of \<^verbatim>\<open>run_receiver\<close>, as far as the frames it extracts
  go: the results of its first \<open>n\<close> iterations. An exception leaves the loop, so
  nothing is read after the first error.
\<close>

fun recv_frames :: "nat \<Rightarrow> socket \<Rightarrow> (error + frame) list \<times> socket" where
  "recv_frames 0 sock = ([], sock)"
| "recv_frames (Suc n) sock =
     (case recv_frame sock of
        (Inl e, sock1) \<Rightarrow> ([Inl e], sock1)
      | (Inr frame, sock1) \<Rightarrow>
          (case recv_frames n sock1 of
             (results, sock2) \<Rightarrow> (Inr frame # results, sock2)))"

subsection \<open>The wire format as the protocol describes it\<close>

text \<open>
  The sender's side of the protocol, written from the description of the wire format and
  not from the receiver: a header is nine unsigned fields of fixed width, each sent most
  significant byte first, in the order of the record. The receiver's \<open>unpack\<close> is
  compared with this encoder below.
\<close>

record frame_header =
  h_magic :: "32 word"
  h_version :: "8 word"
  h_codec :: "8 word"
  h_flags :: "16 word"
  h_source_id :: "16 word"
  h_reserved :: "16 word"
  h_frame_id :: "32 word"
  h_timestamp_us :: "64 word"
  h_payload_size :: "32 word"

fun be_bytes :: "nat \<Rightarrow> nat \<Rightarrow> bytes" where
  "be_bytes 0 n = []"
| "be_bytes (Suc k) n = be_bytes k (n div 256) @ [of_nat (n mod 256)]"

definition wire_header :: "frame_header \<Rightarrow> bytes" where
  "wire_header h =
     be_bytes 4 (unat (h_magic h)) @ be_bytes 1 (unat (h_version h)) @
     be_bytes 1 (unat (h_codec h)) @ be_bytes 2 (unat (h_flags h)) @
     be_bytes 2 (unat (h_source_id h)) @ be_bytes 2 (unat (h_reserved h)) @
     be_bytes 4 (unat (h_frame_id h)) @ be_bytes 8 (unat (h_timestamp_us h)) @
     be_bytes 4 (unat (h_payload_size h))"

definition valid_header :: "frame_header \<Rightarrow> bool" where
  "valid_header h \<longleftrightarrow>
     h_magic h = 0x47535643 \<and> h_version h = 1 \<and> h_codec h = 1 \<and> h_payload_size h \<le> 1048576"

section \<open>Properties\<close>

subsection \<open>Reading from the socket\<close>

lemma recv_bytes:
  assumes "recv sock n = (data, sock')" and "0 \<le> n"
  shows "stream_bytes sock = data @ stream_bytes sock'" and "int (length data) \<le> n"
  using assms
  by (auto simp: recv_def stream_bytes_def Let_def split: list.splits if_splits)

lemma recv_nonempty:
  assumes "recv sock n = (data, sock')" and "nonempty_chunks sock" and "0 < n"
  shows "nonempty_chunks sock'" and "data = [] \<longleftrightarrow> pending sock = []"
    and "data = [] \<Longrightarrow> pending sock' = []"
  using assms
  by (auto simp: recv_def nonempty_chunks_def Let_def split: list.splits if_splits)

lemma stream_bytes_empty:
  "nonempty_chunks sock \<Longrightarrow> stream_bytes sock = [] \<longleftrightarrow> pending sock = []"
  by (cases "pending sock") (auto simp: stream_bytes_def nonempty_chunks_def)

lemma recv_exact_loop_Inr:
  "recv_exact_loop sock chunks remaining = (Inr buf, sock') \<Longrightarrow> 0 \<le> remaining \<Longrightarrow>
     buf = concat chunks @ take (nat remaining) (stream_bytes sock) \<and>
     int (length buf) = int (length (concat chunks)) + remaining \<and>
     stream_bytes sock' = drop (nat remaining) (stream_bytes sock)"
proof (induction sock chunks remaining rule: recv_exact_loop.induct)
  case (1 sock chunks remaining)
  show ?case
  proof (cases "remaining > 0")
    case False
    with "1.prems" show ?thesis
      by (simp add: recv_exact_loop.simps)
  next
    case True
    obtain data sock1 where r: "recv sock remaining = (data, sock1)"
      by (cases "recv sock remaining")
    from "1.prems"(1) True r have ne: "data \<noteq> []"
      by (auto simp: recv_exact_loop.simps [of sock chunks remaining])
    from "1.prems"(1) True r ne
    have rec: "recv_exact_loop sock1 (chunks @ [data]) (remaining - int (length data)) = (Inr buf, sock')"
      by (simp add: recv_exact_loop.simps [of sock chunks remaining])
    from recv_bytes [OF r] True
    have sb: "stream_bytes sock = data @ stream_bytes sock1" and le: "int (length data) \<le> remaining"
      by simp_all
    from le have nn: "0 \<le> remaining - int (length data)" by simp
    note ih = "1.IH" [OF True r [symmetric] ne rec nn]
    from le have l2: "length data \<le> nat remaining" by simp
    have n: "nat (remaining - int (length data)) = nat remaining - length data"
      by simp
    have c1: "buf = concat chunks @ take (nat remaining) (stream_bytes sock)"
      using ih [THEN conjunct1] l2 unfolding sb n by simp
    have c2: "int (length buf) = int (length (concat chunks)) + remaining"
      using ih [THEN conjunct2, THEN conjunct1] by simp
    have c3: "stream_bytes sock' = drop (nat remaining) (stream_bytes sock)"
      using ih [THEN conjunct2, THEN conjunct2] l2 unfolding sb n by simp
    from c1 c2 c3 show ?thesis by blast
  qed
qed

lemma recv_exact_loop_nonempty:
  "nonempty_chunks sock \<Longrightarrow> 0 \<le> remaining \<Longrightarrow>
     fst (recv_exact_loop sock chunks remaining) =
       (if remaining \<le> int (length (stream_bytes sock))
        then Inr (concat chunks @ take (nat remaining) (stream_bytes sock))
        else Inl (ConnectionError ''peer closed the connection'')) \<and>
     nonempty_chunks (snd (recv_exact_loop sock chunks remaining)) \<and>
     stream_bytes (snd (recv_exact_loop sock chunks remaining)) =
       drop (nat remaining) (stream_bytes sock)"
proof (induction sock chunks remaining rule: recv_exact_loop.induct)
  case (1 sock chunks remaining)
  show ?case
  proof (cases "remaining > 0")
    case False
    with "1.prems" show ?thesis
      by (simp add: recv_exact_loop.simps)
  next
    case True
    obtain data sock1 where r: "recv sock remaining = (data, sock1)"
      by (cases "recv sock remaining")
    note b = recv_bytes [OF r] and w = recv_nonempty [OF r "1.prems"(1) True]
    show ?thesis
    proof (cases "data = []")
      case True
      with w have "pending sock = []" "pending sock1 = []"
        by simp_all
      with \<open>remaining > 0\<close> r True show ?thesis
        by (simp add: recv_exact_loop.simps [of sock chunks remaining] stream_bytes_def
            nonempty_chunks_def)
    next
      case False
      from b \<open>remaining > 0\<close>
      have sb: "stream_bytes sock = data @ stream_bytes sock1" and le: "int (length data) \<le> remaining"
        by simp_all
      have step: "recv_exact_loop sock chunks remaining =
          recv_exact_loop sock1 (chunks @ [data]) (remaining - int (length data))"
        using \<open>remaining > 0\<close> r False
        by (simp add: recv_exact_loop.simps [of sock chunks remaining])
      from le have l2: "length data \<le> nat remaining" by simp
      have n: "nat (remaining - int (length data)) = nat remaining - length data"
        by simp
      from "1.IH" [OF \<open>remaining > 0\<close> r [symmetric] False w(1)] le
      show ?thesis
        unfolding step sb n using l2 by auto
    qed
  qed
qed

subsection \<open>Big-endian fields\<close>

lemma length_be_bytes [simp]: "length (be_bytes k n) = k"
  by (induction k arbitrary: n) simp_all

lemma be_uint_snoc: "be_uint (bs @ [b]) = be_uint bs * 256 + uint b"
  by (simp add: be_uint_def)

lemma be_uint_be_bytes: "be_uint (be_bytes k n) = int (n mod 256 ^ k)"
proof (induction k arbitrary: n)
  case 0
  show ?case by (simp add: be_uint_def)
next
  case (Suc k)
  have "uint (of_nat (n mod 256) :: byte) = int (n mod 256)"
    by (simp add: uint_nat unat_of_nat)
  moreover have "n mod 256 ^ Suc k = 256 * (n div 256 mod 256 ^ k) + n mod 256"
    by (simp add: mod_mult2_eq)
  ultimately show ?case
    by (simp add: be_uint_snoc Suc.IH)
qed

lemma be_uint_word32: "be_uint (be_bytes 4 (unat (w :: 32 word))) = uint w"
proof -
  have "unat w < 256 ^ 4" using unsigned_less [of w, where 'a = nat] by simp
  then show ?thesis by (simp add: be_uint_be_bytes)
qed

lemma be_uint_word8: "be_uint (be_bytes 1 (unat (w :: 8 word))) = uint w"
proof -
  have "unat w < 256" using unsigned_less [of w, where 'a = nat] by simp
  then show ?thesis by (simp add: be_uint_def)
qed

lemma be_uint_word16: "be_uint (be_bytes 2 (unat (w :: 16 word))) = uint w"
proof -
  have "unat w < 256 ^ 2" using unsigned_less [of w, where 'a = nat] by simp
  then show ?thesis by (simp add: be_uint_be_bytes)
qed

lemma be_uint_word64: "be_uint (be_bytes 8 (unat (w :: 64 word))) = uint w"
proof -
  have "unat w < 256 ^ 8" using unsigned_less [of w, where 'a = nat] by simp
  then show ?thesis by (simp add: be_uint_be_bytes)
qed

lemma HEADER_SIZE_28: "HEADER_SIZE = 28"
  by (simp add: HEADER_SIZE_def calcsize_def HEADER_FORMAT_def)

lemma length_wire_header: "length (wire_header h) = 28"
  by (simp add: wire_header_def)

lemma unpack_wire_header:
  "unpack HEADER_FORMAT (wire_header h) =
     Inr [uint (h_magic h), uint (h_version h), uint (h_codec h), uint (h_flags h),
          uint (h_source_id h), uint (h_reserved h), uint (h_frame_id h),
          uint (h_timestamp_us h), uint (h_payload_size h)]"
  using be_uint_word8 [of "h_version h"] be_uint_word8 [of "h_codec h"]
  by (simp add: unpack_def calcsize_def HEADER_FORMAT_def wire_header_def
      be_uint_word16 be_uint_word32 be_uint_word64)

lemma parse_header_wire:
  "parse_header (wire_header h) =
     (if h_magic h \<noteq> 0x47535643 then Inl (ValueError ''bad magic: 0x'' (uint (h_magic h)))
      else if h_version h \<noteq> 1 then Inl (ValueError ''unsupported version: '' (uint (h_version h)))
      else if h_codec h \<noteq> 1 then Inl (ValueError ''unsupported codec: '' (uint (h_codec h)))
      else if h_payload_size h > 1048576
        then Inl (ValueError ''payload too large: '' (uint (h_payload_size h)))
      else Inr (uint (h_source_id h), uint (h_frame_id h), uint (h_timestamp_us h),
                uint (h_payload_size h)))"
proof -
  have m: "uint (h_magic h) = 0x47535643 \<longleftrightarrow> h_magic h = 0x47535643"
    by (simp add: word_uint_eq_iff)
  have v: "uint (h_version h) = 1 \<longleftrightarrow> h_version h = 1"
    by (simp add: word_uint_eq_iff)
  have c: "uint (h_codec h) = 1 \<longleftrightarrow> h_codec h = 1"
    by (simp add: word_uint_eq_iff)
  have p: "uint (h_payload_size h) > 1048576 \<longleftrightarrow> h_payload_size h > 1048576"
    by (simp add: word_less_def)
  show ?thesis
    by (simp add: parse_header_def unpack_wire_header STREAM_MAGIC_def STREAM_VERSION_def
        STREAM_CODEC_JPEG_def MAX_PAYLOAD_SIZE_def m v c p)
qed

subsection \<open>Encoding fixed-width fields\<close>

lemma be_bytes_1: "be_bytes 1 n = [of_nat (n mod 256)]"
  by simp

lemma be_bytes_2: "be_bytes 2 n = [of_nat (n div 256 mod 256), of_nat (n mod 256)]"
proof -
  have e: "(2::nat) = Suc (Suc 0)" by simp
  show ?thesis unfolding e by (simp add: div_mult2_eq)
qed

lemma be_bytes_4:
  "be_bytes 4 n = [of_nat (n div 256 div 256 div 256 mod 256), of_nat (n div 256 div 256 mod 256),
     of_nat (n div 256 mod 256), of_nat (n mod 256)]"
proof -
  have e: "(4::nat) = Suc (Suc (Suc (Suc 0)))" by simp
  show ?thesis unfolding e by simp
qed

lemma be_bytes_8:
  "be_bytes 8 n =
     [of_nat (n div 256 div 256 div 256 div 256 div 256 div 256 div 256 mod 256),
      of_nat (n div 256 div 256 div 256 div 256 div 256 div 256 mod 256),
      of_nat (n div 256 div 256 div 256 div 256 div 256 mod 256),
      of_nat (n div 256 div 256 div 256 div 256 mod 256),
      of_nat (n div 256 div 256 div 256 mod 256), of_nat (n div 256 div 256 mod 256),
      of_nat (n div 256 mod 256), of_nat (n mod 256)]"
proof -
  have e: "(8::nat) = Suc (Suc (Suc (Suc (Suc (Suc (Suc (Suc 0)))))))" by simp
  show ?thesis unfolding e by simp
qed

subsection \<open>Exact reads and frame extraction on a well-formed transport\<close>

lemma recv_exact_nonempty:
  assumes "nonempty_chunks sock" and "0 \<le> n"
  shows "fst (recv_exact sock n) =
           (if n \<le> int (length (stream_bytes sock)) then Inr (take (nat n) (stream_bytes sock))
            else Inl (ConnectionError ''peer closed the connection''))"
    and "nonempty_chunks (snd (recv_exact sock n))"
    and "stream_bytes (snd (recv_exact sock n)) = drop (nat n) (stream_bytes sock)"
  using recv_exact_loop_nonempty [OF assms, of "[]"] by (simp_all add: recv_exact_def)

lemma recv_exact_zero: "recv_exact sock 0 = (Inr [], sock)"
  by (simp add: recv_exact_def recv_exact_loop.simps [of sock "[]" 0])

lemma be_uint_nonneg: "0 \<le> be_uint bs"
  by (induction bs rule: rev_induct) (simp_all add: be_uint_snoc, simp add: be_uint_def)

lemma unpack_header_raw:
  "length raw = 28 \<Longrightarrow>
   unpack HEADER_FORMAT raw =
     Inr [be_uint (take 4 raw), be_uint (take 1 (drop 4 raw)), be_uint (take 1 (drop 5 raw)),
          be_uint (take 2 (drop 6 raw)), be_uint (take 2 (drop 8 raw)),
          be_uint (take 2 (drop 10 raw)), be_uint (take 4 (drop 12 raw)),
          be_uint (take 8 (drop 16 raw)), be_uint (take 4 (drop 24 raw))]"
  by (simp add: unpack_def calcsize_def HEADER_FORMAT_def)

lemma unpack_header_short: "length raw \<noteq> 28 \<Longrightarrow> unpack HEADER_FORMAT raw = Inl StructError"
  by (simp add: unpack_def calcsize_def HEADER_FORMAT_def)

lemma parse_header_payload_size_nonneg:
  assumes "parse_header raw = Inr (source_id, frame_id, timestamp_us, payload_size)"
  shows "0 \<le> payload_size"
proof (cases "length raw = 28")
  case True
  from assms have "payload_size = be_uint (take 4 (drop 24 raw))"
    by (simp add: parse_header_def unpack_header_raw [OF True] split: if_splits)
  then show ?thesis by (simp add: be_uint_nonneg)
next
  case False
  with assms show ?thesis
    by (simp add: parse_header_def unpack_header_short)
qed

lemma recv_frame_nonempty:
  assumes ne: "nonempty_chunks sock"
  shows "fst (recv_frame sock) =
           (if length (stream_bytes sock) < 28
            then Inl (ConnectionError ''peer closed the connection'')
            else case parse_header (take 28 (stream_bytes sock)) of
              Inl e \<Rightarrow> Inl e
            | Inr (source_id, frame_id, timestamp_us, payload_size) \<Rightarrow>
                if payload_size \<le> int (length (stream_bytes sock)) - 28
                then Inr (source_id, frame_id, timestamp_us,
                          take (nat payload_size) (drop 28 (stream_bytes sock)))
                else Inl (ConnectionError ''peer closed the connection''))"
    (is "?res")
    and "nonempty_chunks (snd (recv_frame sock))" (is "?ne")
    and "stream_bytes (snd (recv_frame sock)) =
           (case parse_header (take 28 (stream_bytes sock)) of
              Inl e \<Rightarrow> drop 28 (stream_bytes sock)
            | Inr (source_id, frame_id, timestamp_us, payload_size) \<Rightarrow>
                drop (nat payload_size) (drop 28 (stream_bytes sock)))" (is "?rest")
proof -
  obtain r1 sock1 where h: "recv_exact sock HEADER_SIZE = (r1, sock1)"
    by (cases "recv_exact sock HEADER_SIZE")
  from recv_exact_nonempty [OF ne, of HEADER_SIZE] h
  have r1: "r1 = (if length (stream_bytes sock) < 28
                  then Inl (ConnectionError ''peer closed the connection'')
                  else Inr (take 28 (stream_bytes sock)))"
    and ne1: "nonempty_chunks sock1"
    and sb1: "stream_bytes sock1 = drop 28 (stream_bytes sock)"
    by (auto simp: HEADER_SIZE_28)
  show ?res and ?ne and ?rest
  proof (atomize (full), cases "length (stream_bytes sock) < 28")
    case True
    then have "parse_header (take 28 (stream_bytes sock)) = Inl StructError"
      by (simp add: parse_header_def unpack_header_short)
    with True h r1 ne1 sb1 show "?res \<and> ?ne \<and> ?rest"
      by (simp add: recv_frame_def)
  next
    case False
    show "?res \<and> ?ne \<and> ?rest"
    proof (cases "parse_header (take 28 (stream_bytes sock))")
      case (Inl e)
      with False h r1 ne1 sb1 show ?thesis
        by (simp add: recv_frame_def)
    next
      case (Inr t)
      obtain source_id frame_id timestamp_us payload_size
        where t: "t = (source_id, frame_id, timestamp_us, payload_size)"
        by (cases t) auto
      from Inr t have nn: "0 \<le> payload_size"
        by (auto dest: parse_header_payload_size_nonneg)
      obtain r2 sock2 where p: "recv_exact sock1 payload_size = (r2, sock2)"
        by (cases "recv_exact sock1 payload_size")
      from recv_exact_nonempty [OF ne1 nn] p sb1 False
      have r2: "r2 = (if payload_size \<le> int (length (stream_bytes sock)) - 28
                      then Inr (take (nat payload_size) (drop 28 (stream_bytes sock)))
                      else Inl (ConnectionError ''peer closed the connection''))"
        and ne2: "nonempty_chunks sock2"
        and sb2: "stream_bytes sock2 = drop (nat payload_size) (drop 28 (stream_bytes sock))"
        by (auto simp: of_nat_diff)
      from False h r1 Inr t p r2 ne2 sb2 show ?thesis
        by (simp add: recv_frame_def)
    qed
  qed
qed

lemma recv_exact_loop_error:
  "recv_exact_loop sock chunks remaining = (Inl e, sock') \<Longrightarrow>
     e = ConnectionError ''peer closed the connection''"
proof (induction sock chunks remaining rule: recv_exact_loop.induct)
  case (1 sock chunks remaining)
  show ?case
  proof (cases "remaining > 0")
    case False
    with "1.prems" show ?thesis
      by (simp add: recv_exact_loop.simps [of sock chunks remaining])
  next
    case True
    obtain data sock1 where r: "recv sock remaining = (data, sock1)"
      by (cases "recv sock remaining")
    show ?thesis
    proof (cases "data = []")
      case True
      with \<open>remaining > 0\<close> r "1.prems" show ?thesis
        by (simp add: recv_exact_loop.simps [of sock chunks remaining])
    next
      case False
      with \<open>remaining > 0\<close> r "1.prems"
      have "recv_exact_loop sock1 (chunks @ [data]) (remaining - int (length data)) = (Inl e, sock')"
        by (simp add: recv_exact_loop.simps [of sock chunks remaining])
      with "1.IH" [OF \<open>remaining > 0\<close> r [symmetric] False] show ?thesis .
    qed
  qed
qed

lemma take_wire_header [simp]: "take 28 (wire_header h @ bs) = wire_header h"
  by (simp add: length_wire_header)

lemma drop_wire_header [simp]: "drop 28 (wire_header h @ bs) = bs"
  by (simp add: length_wire_header)

lemma recv_exact_header:
  assumes "nonempty_chunks sock" and "stream_bytes sock = wire_header h @ rest"
  obtains sock1 where "recv_exact sock HEADER_SIZE = (Inr (wire_header h), sock1)"
    and "nonempty_chunks sock1" and "stream_bytes sock1 = rest"
proof -
  obtain r1 sock1 where e: "recv_exact sock HEADER_SIZE = (r1, sock1)"
    by (cases "recv_exact sock HEADER_SIZE")
  from recv_exact_nonempty [OF assms(1), of HEADER_SIZE] assms(2) e
  have "r1 = Inr (wire_header h)" "nonempty_chunks sock1" "stream_bytes sock1 = rest"
    by (simp_all add: HEADER_SIZE_28 length_wire_header)
  with e that show thesis by simp
qed

lemma recv_frame_valid:
  assumes "valid_header h" and "length payload = unat (h_payload_size h)"
    and "nonempty_chunks sock" and "stream_bytes sock = wire_header h @ payload @ rest"
  shows "fst (recv_frame sock) =
           Inr (uint (h_source_id h), uint (h_frame_id h), uint (h_timestamp_us h), payload)"
    and "nonempty_chunks (snd (recv_frame sock))"
    and "stream_bytes (snd (recv_frame sock)) = rest"
proof -
  from assms(1) have p: "parse_header (wire_header h) =
      Inr (uint (h_source_id h), uint (h_frame_id h), uint (h_timestamp_us h),
           uint (h_payload_size h))"
    by (simp add: parse_header_wire valid_header_def leD)
  have n: "nat (uint (h_payload_size h)) = length payload"
    using assms(2) by simp
  have u: "uint (h_payload_size h) = int (length payload)"
    using assms(2) by simp
  show "fst (recv_frame sock) =
      Inr (uint (h_source_id h), uint (h_frame_id h), uint (h_timestamp_us h), payload)"
    by (simp add: recv_frame_nonempty(1) [OF assms(3)] assms(4) length_wire_header p n u)
  show "nonempty_chunks (snd (recv_frame sock))"
    by (rule recv_frame_nonempty(2) [OF assms(3)])
  show "stream_bytes (snd (recv_frame sock)) = rest"
    by (simp add: recv_frame_nonempty(3) [OF assms(3)] assms(4) length_wire_header p
        assms(2) [symmetric])
qed

lemma recv_frame_chunking:
  assumes "nonempty_chunks s" and "nonempty_chunks t" and "stream_bytes s = stream_bytes t"
  shows "fst (recv_frame s) = fst (recv_frame t)"
    and "stream_bytes (snd (recv_frame s)) = stream_bytes (snd (recv_frame t))"
  unfolding recv_frame_nonempty(1,3) [OF assms(1)] recv_frame_nonempty(1,3) [OF assms(2)]
    assms(3) by (rule refl)+

lemma recv_frames_chunking:
  "nonempty_chunks s \<Longrightarrow> nonempty_chunks t \<Longrightarrow> stream_bytes s = stream_bytes t \<Longrightarrow>
     fst (recv_frames n s) = fst (recv_frames n t)"
proof (induction n arbitrary: s t)
  case 0
  show ?case by simp
next
  case (Suc n)
  obtain r s1 where rs: "recv_frame s = (r, s1)" by (cases "recv_frame s")
  obtain r' t1 where rt: "recv_frame t = (r', t1)" by (cases "recv_frame t")
  from recv_frame_chunking [OF Suc.prems] rs rt
  have eq: "r' = r" and sb: "stream_bytes s1 = stream_bytes t1" by simp_all
  from recv_frame_nonempty(2) [OF Suc.prems(1)] recv_frame_nonempty(2) [OF Suc.prems(2)] rs rt
  have ne: "nonempty_chunks s1" "nonempty_chunks t1" by simp_all
  show ?case
  proof (cases r)
    case (Inl e)
    with rs rt eq show ?thesis by simp
  next
    case (Inr f)
    from Suc.IH [OF ne sb] rs rt eq Inr show ?thesis
      by (simp add: split_beta)
  qed
qed

lemma unpack_header_length:
  "unpack HEADER_FORMAT raw = Inr unpacked \<Longrightarrow> length raw = 28"
  by (simp add: unpack_def calcsize_def HEADER_FORMAT_def split: if_splits)

lemma recv_exact_raw_header:
  assumes "nonempty_chunks sock" and "stream_bytes sock = raw @ rest" and "length raw = 28"
  obtains sock1 where "recv_exact sock HEADER_SIZE = (Inr raw, sock1)"
    and "nonempty_chunks sock1" and "stream_bytes sock1 = rest"
proof -
  obtain r1 sock1 where e: "recv_exact sock HEADER_SIZE = (r1, sock1)"
    by (cases "recv_exact sock HEADER_SIZE")
  from recv_exact_nonempty [OF assms(1), of HEADER_SIZE] assms(2,3) e
  have "r1 = Inr raw" "nonempty_chunks sock1" "stream_bytes sock1 = rest"
    by (simp_all add: HEADER_SIZE_28)
  with e that show thesis by simp
qed

section \<open>The protocol claims\<close>

text \<open>
  C1. A valid header (magic \<open>0x47535643\<close>, version 1, codec 1, payload size at most
  1048576, the bound included) followed by exactly that many payload bytes decodes, for
  every delivery chunking, to the frame whose source id, frame id, timestamp and payload
  are the encoded ones.
\<close>

theorem valid_frame_decodes:
  assumes "valid_header h" and "length payload = unat (h_payload_size h)"
    and "nonempty_chunks sock" and "stream_bytes sock = wire_header h @ payload @ rest"
  shows "fst (recv_frame sock) =
           Inr (uint (h_source_id h), uint (h_frame_id h), uint (h_timestamp_us h), payload)"
  by (rule recv_frame_valid(1) [OF assms])

text \<open>The theorem at a three-byte frame delivered in three chunks.\<close>

theorem valid_frame_decodes_witness:
  "valid_header \<lparr>h_magic = 0x47535643, h_version = 1, h_codec = 1, h_flags = 0x0102,
     h_source_id = 7, h_reserved = 0, h_frame_id = 42, h_timestamp_us = 1000,
     h_payload_size = 3\<rparr> \<and>
   nonempty_chunks \<lparr>pending = [[0x47, 0x53, 0x56],
       [0x43, 1, 1, 1, 2, 0, 7, 0, 0, 0, 0, 0, 42, 0, 0, 0, 0, 0, 0, 3, 232, 0, 0, 0, 3, 9, 8],
       [7]], recv_log = []\<rparr> \<and>
   fst (recv_frame \<lparr>pending = [[0x47, 0x53, 0x56],
       [0x43, 1, 1, 1, 2, 0, 7, 0, 0, 0, 0, 0, 42, 0, 0, 0, 0, 0, 0, 3, 232, 0, 0, 0, 3, 9, 8],
       [7]], recv_log = []\<rparr>) = Inr (7, 42, 1000, [9, 8, 7])"
  (is "valid_header ?h \<and> nonempty_chunks ?s \<and> _")
proof -
  have v: "valid_header ?h" by (simp add: valid_header_def)
  have l: "length [9, 8, 7 :: byte] = unat (h_payload_size ?h)" by simp
  have c: "nonempty_chunks ?s" by (simp add: nonempty_chunks_def)
  have b: "stream_bytes ?s = wire_header ?h @ [9, 8, 7] @ []"
    by (simp add: stream_bytes_def wire_header_def be_bytes_2 be_bytes_4 be_bytes_8)
  from valid_frame_decodes [OF v l c b] v c show ?thesis by simp
qed

text \<open>
  C2. For a 28-byte header, whose nine fields \<open>unpack\<close> returns, \<open>parse_header\<close>
  checks the magic, then the version, then the codec, then the payload size against the
  ceiling, and raises at the first check that fails a \<open>ValueError\<close> carrying the
  offending value. When the header is rejected the frame extraction raises that error and
  the socket is left as the header read left it: no payload byte has been consumed.
\<close>

theorem validation_order:
  assumes "unpack HEADER_FORMAT raw =
     Inr [magic, version, codec, flags, source_id, reserved, frame_id, timestamp_us,
          payload_size]"
  shows "parse_header raw =
           (if magic \<noteq> 0x47535643 then Inl (ValueError ''bad magic: 0x'' magic)
            else if version \<noteq> 1 then Inl (ValueError ''unsupported version: '' version)
            else if codec \<noteq> 1 then Inl (ValueError ''unsupported codec: '' codec)
            else if payload_size > 1048576
              then Inl (ValueError ''payload too large: '' payload_size)
            else Inr (source_id, frame_id, timestamp_us, payload_size)) \<and>
         (nonempty_chunks sock \<and> stream_bytes sock = raw @ rest \<and> parse_header raw = Inl e \<longrightarrow>
            recv_frame sock = (Inl e, snd (recv_exact sock HEADER_SIZE)) \<and>
            stream_bytes (snd (recv_frame sock)) = rest)"
proof (intro conjI impI)
  show "parse_header raw =
           (if magic \<noteq> 0x47535643 then Inl (ValueError ''bad magic: 0x'' magic)
            else if version \<noteq> 1 then Inl (ValueError ''unsupported version: '' version)
            else if codec \<noteq> 1 then Inl (ValueError ''unsupported codec: '' codec)
            else if payload_size > 1048576
              then Inl (ValueError ''payload too large: '' payload_size)
            else Inr (source_id, frame_id, timestamp_us, payload_size))"
    by (simp add: parse_header_def assms STREAM_MAGIC_def STREAM_VERSION_def
        STREAM_CODEC_JPEG_def MAX_PAYLOAD_SIZE_def)
next
  assume a: "nonempty_chunks sock \<and> stream_bytes sock = raw @ rest \<and> parse_header raw = Inl e"
  from assms have l: "length raw = 28" by (rule unpack_header_length)
  from a l obtain sock1 where hd: "recv_exact sock HEADER_SIZE = (Inr raw, sock1)"
    and sb: "stream_bytes sock1 = rest"
    by (auto elim: recv_exact_raw_header)
  from a have rf: "recv_frame sock = (Inl e, sock1)"
    by (simp add: recv_frame_def hd)
  show "recv_frame sock = (Inl e, snd (recv_exact sock HEADER_SIZE))"
    by (simp add: rf hd)
  show "stream_bytes (snd (recv_frame sock)) = rest"
    by (simp add: rf sb)
qed

text \<open>The theorem at a header with a wrong magic, a wrong version, a wrong codec and an
  oversized payload at once: the magic is reported, and the two bytes after the header stay
  in the stream.\<close>

theorem validation_order_witness:
  "unpack HEADER_FORMAT [0, 0, 0, 1, 2, 3, 0, 0, 0, 7, 0, 0, 0, 0, 0, 42,
       0, 0, 0, 0, 0, 0, 3, 232, 255, 255, 255, 255] =
     Inr [1, 2, 3, 0, 7, 0, 42, 1000, 4294967295] \<and>
   parse_header [0, 0, 0, 1, 2, 3, 0, 0, 0, 7, 0, 0, 0, 0, 0, 42,
       0, 0, 0, 0, 0, 0, 3, 232, 255, 255, 255, 255] = Inl (ValueError ''bad magic: 0x'' 1) \<and>
   nonempty_chunks \<lparr>pending = [[0, 0, 0, 1, 2, 3, 0, 0, 0, 7, 0, 0, 0, 0, 0, 42],
       [0, 0, 0, 0, 0, 0, 3, 232, 255, 255, 255, 255, 9, 8]], recv_log = []\<rparr> \<and>
   fst (recv_frame \<lparr>pending = [[0, 0, 0, 1, 2, 3, 0, 0, 0, 7, 0, 0, 0, 0, 0, 42],
       [0, 0, 0, 0, 0, 0, 3, 232, 255, 255, 255, 255, 9, 8]], recv_log = []\<rparr>) =
     Inl (ValueError ''bad magic: 0x'' 1) \<and>
   stream_bytes (snd (recv_frame \<lparr>pending = [[0, 0, 0, 1, 2, 3, 0, 0, 0, 7, 0, 0, 0, 0, 0, 42],
       [0, 0, 0, 0, 0, 0, 3, 232, 255, 255, 255, 255, 9, 8]], recv_log = []\<rparr>)) = [9, 8]"
  (is "unpack HEADER_FORMAT ?raw = _ \<and> _ \<and> nonempty_chunks ?s \<and> _")
proof -
  have u: "unpack HEADER_FORMAT ?raw = Inr [1, 2, 3, 0, 7, 0, 42, 1000, 4294967295]"
    by (simp add: unpack_def calcsize_def HEADER_FORMAT_def be_uint_def)
  have c: "nonempty_chunks ?s" by (simp add: nonempty_chunks_def)
  have b: "stream_bytes ?s = ?raw @ [9, 8]" by (simp add: stream_bytes_def)
  note t = validation_order [OF u, where sock = "?s" and rest = "[9, 8]"
      and e = "ValueError ''bad magic: 0x'' 1"]
  from t have p: "parse_header ?raw = Inl (ValueError ''bad magic: 0x'' 1)"
    by simp
  from t c b p have r: "recv_frame ?s =
      (Inl (ValueError ''bad magic: 0x'' 1), snd (recv_exact ?s HEADER_SIZE))"
    and q: "stream_bytes (snd (recv_frame ?s)) = [9, 8]"
    by blast+
  from r have f: "fst (recv_frame ?s) = Inl (ValueError ''bad magic: 0x'' 1)"
    by simp
  from u p c f q show ?thesis by blast
qed

text \<open>
  C3. For a non-negative byte count \<open>n\<close>, \<open>recv_exact\<close> either returns exactly
  \<open>n\<close> bytes, the first \<open>n\<close> bytes of the stream gathered over as many reads as the
  transport needs, or raises the peer-closed connection error, and it does return them
  whenever the transport delivers at least \<open>n\<close> bytes. A read that returns no data while
  bytes are outstanding ends the loop at once with that error: the socket is left as that
  read left it, so no further read is made.
\<close>

theorem recv_exact_contract:
  assumes "0 \<le> n"
  shows "((\<exists>buf sock1. recv_exact sock n = (Inr buf, sock1) \<and> int (length buf) = n \<and>
             buf = take (nat n) (stream_bytes sock) \<and>
             stream_bytes sock1 = drop (nat n) (stream_bytes sock)) \<or>
          (\<exists>sock1. recv_exact sock n =
             (Inl (ConnectionError ''peer closed the connection''), sock1))) \<and>
         (nonempty_chunks sock \<and> n \<le> int (length (stream_bytes sock)) \<longrightarrow>
            fst (recv_exact sock n) = Inr (take (nat n) (stream_bytes sock))) \<and>
         (0 < remaining \<and> recv sock remaining = ([], sock2) \<longrightarrow>
            recv_exact_loop sock chunks remaining =
              (Inl (ConnectionError ''peer closed the connection''), sock2))"
proof (intro conjI impI)
  obtain r sock1 where e: "recv_exact sock n = (r, sock1)"
    by (cases "recv_exact sock n")
  show "(\<exists>buf sock1. recv_exact sock n = (Inr buf, sock1) \<and> int (length buf) = n \<and>
             buf = take (nat n) (stream_bytes sock) \<and>
             stream_bytes sock1 = drop (nat n) (stream_bytes sock)) \<or>
          (\<exists>sock1. recv_exact sock n =
             (Inl (ConnectionError ''peer closed the connection''), sock1))"
  proof (cases r)
    case (Inl err)
    with e have "err = ConnectionError ''peer closed the connection''"
      by (auto simp: recv_exact_def dest: recv_exact_loop_error)
    with e Inl show ?thesis by simp
  next
    case (Inr buf)
    with e have "recv_exact_loop sock [] n = (Inr buf, sock1)"
      by (simp add: recv_exact_def)
    note recv_exact_loop_Inr [OF this assms, simplified]
    with e Inr show ?thesis by blast
  qed
next
  assume "nonempty_chunks sock \<and> n \<le> int (length (stream_bytes sock))"
  with recv_exact_nonempty(1) [of sock n] assms
  show "fst (recv_exact sock n) = Inr (take (nat n) (stream_bytes sock))" by simp
next
  assume "0 < remaining \<and> recv sock remaining = ([], sock2)"
  then show "recv_exact_loop sock chunks remaining =
      (Inl (ConnectionError ''peer closed the connection''), sock2)"
    by (simp add: recv_exact_loop.simps [of sock chunks remaining])
qed

text \<open>The theorem at a four-byte read served by three chunks, and at a read on a
  connection the peer has closed.\<close>

theorem recv_exact_contract_witness:
  "(0::int) \<le> 4 \<and>
   nonempty_chunks \<lparr>pending = [[1, 2], [3], [4, 5]], recv_log = []\<rparr> \<and>
   fst (recv_exact \<lparr>pending = [[1, 2], [3], [4, 5]], recv_log = []\<rparr> 4) = Inr [1, 2, 3, 4] \<and>
   recv \<lparr>pending = [], recv_log = [4]\<rparr> 2 = ([], \<lparr>pending = [], recv_log = [4, 2]\<rparr>) \<and>
   recv_exact_loop \<lparr>pending = [], recv_log = [4]\<rparr> [[1, 2]] 2 =
     (Inl (ConnectionError ''peer closed the connection''), \<lparr>pending = [], recv_log = [4, 2]\<rparr>)"
proof -
  let ?s = "\<lparr>pending = [[1, 2], [3], [4, 5 :: byte]], recv_log = []\<rparr>"
  let ?c = "\<lparr>pending = ([] :: bytes list), recv_log = [4]\<rparr>"
  let ?c' = "\<lparr>pending = ([] :: bytes list), recv_log = [4, 2]\<rparr>"
  have n: "(0::int) \<le> 4" by simp
  have c: "nonempty_chunks ?s" by (simp add: nonempty_chunks_def)
  have l: "4 \<le> int (length (stream_bytes ?s))" by (simp add: stream_bytes_def)
  have r: "recv ?c 2 = ([], ?c')" by (simp add: recv_def)
  from recv_exact_contract [OF n, where sock = "?s"] c l
  have a: "fst (recv_exact ?s 4) = Inr [1, 2, 3, 4]" by (simp add: stream_bytes_def)
  from recv_exact_contract [OF n, where sock = "?c" and remaining = 2 and ?sock2.0 = "?c'"
      and chunks = "[[1, 2]]"] r
  have b: "recv_exact_loop ?c [[1, 2]] 2 =
     (Inl (ConnectionError ''peer closed the connection''), ?c')" by simp
  from n c a r b show ?thesis by simp
qed

text \<open>
  C4. When the connection closes before the 28 header bytes have arrived, and when it
  closes after a valid header but before the announced payload is complete, the frame
  extraction raises the connection error, not a parsing or validation error.
\<close>

theorem closed_stream_is_connection_error:
  assumes "nonempty_chunks sock"
  shows "(length (stream_bytes sock) < 28 \<longrightarrow>
            fst (recv_frame sock) = Inl (ConnectionError ''peer closed the connection'')) \<and>
         (valid_header h \<and> stream_bytes sock = wire_header h @ partial \<and>
          length partial < unat (h_payload_size h) \<longrightarrow>
            fst (recv_frame sock) = Inl (ConnectionError ''peer closed the connection''))"
proof (intro conjI impI)
  assume "length (stream_bytes sock) < 28"
  then show "fst (recv_frame sock) = Inl (ConnectionError ''peer closed the connection'')"
    by (simp add: recv_frame_nonempty(1) [OF assms])
next
  assume a: "valid_header h \<and> stream_bytes sock = wire_header h @ partial \<and>
          length partial < unat (h_payload_size h)"
  then have p: "parse_header (wire_header h) =
      Inr (uint (h_source_id h), uint (h_frame_id h), uint (h_timestamp_us h),
           uint (h_payload_size h))"
    by (simp add: parse_header_wire valid_header_def leD)
  from a have "int (length partial) < int (unat (h_payload_size h))"
    by (simp only: of_nat_less_iff)
  then have "\<not> uint (h_payload_size h) \<le> int (length partial)"
    by simp
  with a show "fst (recv_frame sock) = Inl (ConnectionError ''peer closed the connection'')"
    by (simp add: recv_frame_nonempty(1) [OF assms] length_wire_header p)
qed

text \<open>The theorem at a stream that ends after five header bytes, and at one that ends
  two bytes into a three-byte payload.\<close>

theorem closed_stream_is_connection_error_witness:
  "nonempty_chunks \<lparr>pending = [[0x47, 0x53], [0x56, 0x43, 1]], recv_log = []\<rparr> \<and>
   fst (recv_frame \<lparr>pending = [[0x47, 0x53], [0x56, 0x43, 1]], recv_log = []\<rparr>) =
     Inl (ConnectionError ''peer closed the connection'') \<and>
   valid_header \<lparr>h_magic = 0x47535643, h_version = 1, h_codec = 1, h_flags = 0,
     h_source_id = 7, h_reserved = 0, h_frame_id = 42, h_timestamp_us = 1000,
     h_payload_size = 3\<rparr> \<and>
   nonempty_chunks \<lparr>pending = [[0x47, 0x53, 0x56, 0x43, 1, 1, 0, 0, 0, 7, 0, 0],
       [0, 0, 0, 42, 0, 0, 0, 0, 0, 0, 3, 232, 0, 0, 0, 3, 9, 8]], recv_log = []\<rparr> \<and>
   fst (recv_frame \<lparr>pending = [[0x47, 0x53, 0x56, 0x43, 1, 1, 0, 0, 0, 7, 0, 0],
       [0, 0, 0, 42, 0, 0, 0, 0, 0, 0, 3, 232, 0, 0, 0, 3, 9, 8]], recv_log = []\<rparr>) =
     Inl (ConnectionError ''peer closed the connection'')"
  (is "nonempty_chunks ?k \<and> _ \<and> valid_header ?h \<and> nonempty_chunks ?s \<and> _")
proof -
  have ck: "nonempty_chunks ?k" by (simp add: nonempty_chunks_def)
  have lk: "length (stream_bytes ?k) < 28" by (simp add: stream_bytes_def)
  have v: "valid_header ?h" by (simp add: valid_header_def)
  have c: "nonempty_chunks ?s" by (simp add: nonempty_chunks_def)
  have b: "stream_bytes ?s = wire_header ?h @ [9, 8]"
    by (simp add: stream_bytes_def wire_header_def be_bytes_2 be_bytes_4 be_bytes_8)
  have l: "length [9, 8 :: byte] < unat (h_payload_size ?h)" by simp
  from closed_stream_is_connection_error [OF ck] lk
  have r1: "fst (recv_frame ?k) = Inl (ConnectionError ''peer closed the connection'')"
    by simp
  from closed_stream_is_connection_error [OF c, where h = "?h" and partial = "[9, 8]"] v b l
  have r2: "fst (recv_frame ?s) = Inl (ConnectionError ''peer closed the connection'')"
    by simp
  from ck r1 v c r2 show ?thesis by simp
qed

text \<open>
  C5. The header is 28 bytes: magic (32 bits), version (8), codec (8), flags (16),
  source id (16), reserved (16), frame id (32), timestamp (64) and payload size (32), in
  that order and big-endian, which is what \<open>unpack\<close> reads back from the encoded
  header; the constants are magic \<open>0x47535643\<close>, version 1, codec 1 and a payload
  ceiling of 1048576.
\<close>

theorem header_wire_format:
  "HEADER_SIZE = 28 \<and> length (wire_header h) = 28 \<and>
   unpack HEADER_FORMAT (wire_header h) =
     Inr [uint (h_magic h), uint (h_version h), uint (h_codec h), uint (h_flags h),
          uint (h_source_id h), uint (h_reserved h), uint (h_frame_id h),
          uint (h_timestamp_us h), uint (h_payload_size h)] \<and>
   STREAM_MAGIC = 0x47535643 \<and> STREAM_VERSION = 1 \<and> STREAM_CODEC_JPEG = 1 \<and>
   MAX_PAYLOAD_SIZE = 1048576"
  by (simp add: HEADER_SIZE_28 length_wire_header unpack_wire_header STREAM_MAGIC_def
      STREAM_VERSION_def STREAM_CODEC_JPEG_def MAX_PAYLOAD_SIZE_def)

text \<open>
  C6. When the stream is two valid frames one after the other, the first extraction returns
  the first frame and leaves the stream at the first byte of the second header, the second
  extraction returns the second frame and leaves what follows it; with nothing following,
  the stream is then at its end.
\<close>

theorem two_frames_back_to_back:
  assumes "valid_header h1" and "length p1 = unat (h_payload_size h1)"
    and "valid_header h2" and "length p2 = unat (h_payload_size h2)"
    and "nonempty_chunks sock"
    and "stream_bytes sock = wire_header h1 @ p1 @ wire_header h2 @ p2 @ rest"
  shows "fst (recv_frame sock) =
           Inr (uint (h_source_id h1), uint (h_frame_id h1), uint (h_timestamp_us h1), p1) \<and>
         stream_bytes (snd (recv_frame sock)) = wire_header h2 @ p2 @ rest \<and>
         fst (recv_frame (snd (recv_frame sock))) =
           Inr (uint (h_source_id h2), uint (h_frame_id h2), uint (h_timestamp_us h2), p2) \<and>
         stream_bytes (snd (recv_frame (snd (recv_frame sock)))) = rest \<and>
         (rest = [] \<longrightarrow> pending (snd (recv_frame (snd (recv_frame sock)))) = [])"
proof -
  note f1 = recv_frame_valid [OF assms(1,2,5,6)]
  note f2 = recv_frame_valid [OF assms(3,4) f1(2) f1(3)]
  have "rest = [] \<longrightarrow> pending (snd (recv_frame (snd (recv_frame sock)))) = []"
  proof
    assume "rest = []"
    with f2(3) have "stream_bytes (snd (recv_frame (snd (recv_frame sock)))) = []"
      by simp
    with stream_bytes_empty [OF f2(2)]
    show "pending (snd (recv_frame (snd (recv_frame sock)))) = []"
      by simp
  qed
  with f1(1,3) f2(1,3) show ?thesis by blast
qed

text \<open>The theorem at a three-byte frame and a one-byte frame whose chunks straddle the
  frame boundary.\<close>

theorem two_frames_back_to_back_witness:
  "valid_header \<lparr>h_magic = 0x47535643, h_version = 1, h_codec = 1, h_flags = 0x0102,
     h_source_id = 7, h_reserved = 0, h_frame_id = 42, h_timestamp_us = 1000,
     h_payload_size = 3\<rparr> \<and>
   valid_header \<lparr>h_magic = 0x47535643, h_version = 1, h_codec = 1, h_flags = 0,
     h_source_id = 8, h_reserved = 0, h_frame_id = 43, h_timestamp_us = 2000,
     h_payload_size = 1\<rparr> \<and>
   nonempty_chunks \<lparr>pending = [[0x47, 0x53, 0x56, 0x43, 1, 1, 1, 2, 0, 7, 0, 0, 0, 0, 0, 42,
       0, 0, 0, 0, 0, 0, 3, 232, 0, 0, 0, 3, 9, 8],
       [7, 0x47, 0x53, 0x56, 0x43, 1, 1, 0, 0, 0, 8, 0, 0, 0, 0, 0, 43],
       [0, 0, 0, 0, 0, 0, 7, 208, 0, 0, 0, 1, 5]], recv_log = []\<rparr> \<and>
   fst (recv_frame \<lparr>pending = [[0x47, 0x53, 0x56, 0x43, 1, 1, 1, 2, 0, 7, 0, 0, 0, 0, 0, 42,
       0, 0, 0, 0, 0, 0, 3, 232, 0, 0, 0, 3, 9, 8],
       [7, 0x47, 0x53, 0x56, 0x43, 1, 1, 0, 0, 0, 8, 0, 0, 0, 0, 0, 43],
       [0, 0, 0, 0, 0, 0, 7, 208, 0, 0, 0, 1, 5]], recv_log = []\<rparr>) =
     Inr (7, 42, 1000, [9, 8, 7]) \<and>
   fst (recv_frame (snd (recv_frame \<lparr>pending = [[0x47, 0x53, 0x56, 0x43, 1, 1, 1, 2, 0, 7, 0, 0,
       0, 0, 0, 42, 0, 0, 0, 0, 0, 0, 3, 232, 0, 0, 0, 3, 9, 8],
       [7, 0x47, 0x53, 0x56, 0x43, 1, 1, 0, 0, 0, 8, 0, 0, 0, 0, 0, 43],
       [0, 0, 0, 0, 0, 0, 7, 208, 0, 0, 0, 1, 5]], recv_log = []\<rparr>))) =
     Inr (8, 43, 2000, [5]) \<and>
   pending (snd (recv_frame (snd (recv_frame \<lparr>pending = [[0x47, 0x53, 0x56, 0x43, 1, 1, 1, 2,
       0, 7, 0, 0, 0, 0, 0, 42, 0, 0, 0, 0, 0, 0, 3, 232, 0, 0, 0, 3, 9, 8],
       [7, 0x47, 0x53, 0x56, 0x43, 1, 1, 0, 0, 0, 8, 0, 0, 0, 0, 0, 43],
       [0, 0, 0, 0, 0, 0, 7, 208, 0, 0, 0, 1, 5]], recv_log = []\<rparr>)))) = []"
  (is "valid_header ?h1 \<and> valid_header ?h2 \<and> nonempty_chunks ?s \<and> _")
proof -
  have v1: "valid_header ?h1" by (simp add: valid_header_def)
  have v2: "valid_header ?h2" by (simp add: valid_header_def)
  have l1: "length [9, 8, 7 :: byte] = unat (h_payload_size ?h1)" by simp
  have l2: "length [5 :: byte] = unat (h_payload_size ?h2)" by simp
  have c: "nonempty_chunks ?s" by (simp add: nonempty_chunks_def)
  have b: "stream_bytes ?s = wire_header ?h1 @ [9, 8, 7] @ wire_header ?h2 @ [5] @ []"
    by (simp add: stream_bytes_def wire_header_def be_bytes_2 be_bytes_4 be_bytes_8)
  from two_frames_back_to_back [OF v1 l1 v2 l2 c b]
  have "fst (recv_frame ?s) =
           Inr (uint (h_source_id ?h1), uint (h_frame_id ?h1), uint (h_timestamp_us ?h1),
                [9, 8, 7]) \<and>
         fst (recv_frame (snd (recv_frame ?s))) =
           Inr (uint (h_source_id ?h2), uint (h_frame_id ?h2), uint (h_timestamp_us ?h2), [5]) \<and>
         pending (snd (recv_frame (snd (recv_frame ?s)))) = []"
    by blast
  with v1 v2 c show ?thesis by simp
qed

text \<open>
  C7. The outcome of decoding depends on the bytes of the stream only, not on how the
  transport cuts them into non-empty chunks: two connections that carry the same bytes
  give the same result for one extraction (the same frame or the same error), leave the
  same bytes behind, and give the same results over any number of iterations of the loop.
\<close>

theorem chunking_independence:
  assumes "nonempty_chunks s" and "nonempty_chunks t" and "stream_bytes s = stream_bytes t"
  shows "fst (recv_frame s) = fst (recv_frame t) \<and>
         stream_bytes (snd (recv_frame s)) = stream_bytes (snd (recv_frame t)) \<and>
         fst (recv_frames n s) = fst (recv_frames n t)"
  using recv_frame_chunking [OF assms] recv_frames_chunking [OF assms] by simp

text \<open>The theorem at a one-byte frame and one byte of a next header, delivered one byte
  at a time and delivered as a single chunk.\<close>

theorem chunking_independence_witness:
  "nonempty_chunks \<lparr>pending = map (\<lambda>b. [b]) [0x47, 0x53, 0x56, 0x43, 1, 1, 1, 2, 0, 7, 0, 0,
       0, 0, 0, 42, 0, 0, 0, 0, 0, 0, 3, 232, 0, 0, 0, 1, 9, 0x47], recv_log = []\<rparr> \<and>
   nonempty_chunks \<lparr>pending = [[0x47, 0x53, 0x56, 0x43, 1, 1, 1, 2, 0, 7, 0, 0,
       0, 0, 0, 42, 0, 0, 0, 0, 0, 0, 3, 232, 0, 0, 0, 1, 9, 0x47]], recv_log = []\<rparr> \<and>
   fst (recv_frame \<lparr>pending = map (\<lambda>b. [b]) [0x47, 0x53, 0x56, 0x43, 1, 1, 1, 2, 0, 7, 0, 0,
       0, 0, 0, 42, 0, 0, 0, 0, 0, 0, 3, 232, 0, 0, 0, 1, 9, 0x47], recv_log = []\<rparr>) =
   fst (recv_frame \<lparr>pending = [[0x47, 0x53, 0x56, 0x43, 1, 1, 1, 2, 0, 7, 0, 0,
       0, 0, 0, 42, 0, 0, 0, 0, 0, 0, 3, 232, 0, 0, 0, 1, 9, 0x47]], recv_log = []\<rparr>) \<and>
   fst (recv_frames 2 \<lparr>pending = map (\<lambda>b. [b]) [0x47, 0x53, 0x56, 0x43, 1, 1, 1, 2, 0, 7, 0, 0,
       0, 0, 0, 42, 0, 0, 0, 0, 0, 0, 3, 232, 0, 0, 0, 1, 9, 0x47], recv_log = []\<rparr>) =
   fst (recv_frames 2 \<lparr>pending = [[0x47, 0x53, 0x56, 0x43, 1, 1, 1, 2, 0, 7, 0, 0,
       0, 0, 0, 42, 0, 0, 0, 0, 0, 0, 3, 232, 0, 0, 0, 1, 9, 0x47]], recv_log = []\<rparr>)"
  (is "nonempty_chunks ?s \<and> nonempty_chunks ?t \<and> _")
proof -
  have cs: "nonempty_chunks ?s" by (simp add: nonempty_chunks_def)
  have ct: "nonempty_chunks ?t" by (simp add: nonempty_chunks_def)
  have b: "stream_bytes ?s = stream_bytes ?t" by (simp add: stream_bytes_def)
  from chunking_independence [OF cs ct b, of 2] cs ct show ?thesis by blast
qed

text \<open>
  C8, as the claim states it, fails: the flags are not part of what the decoder returns.
  Two frames that differ in their flags only (0 and 65535) decode to the same result, the
  tuple of source id, frame id, timestamp and payload.
\<close>

theorem flags_passed_through_counterexample:
  "unpack HEADER_FORMAT [0x47, 0x53, 0x56, 0x43, 1, 1, 0, 0, 0, 7, 0, 0, 0, 0, 0, 42,
       0, 0, 0, 0, 0, 0, 3, 232, 0, 0, 0, 1] =
     Inr [0x47535643, 1, 1, 0, 7, 0, 42, 1000, 1] \<and>
   unpack HEADER_FORMAT [0x47, 0x53, 0x56, 0x43, 1, 1, 255, 255, 0, 7, 0, 0, 0, 0, 0, 42,
       0, 0, 0, 0, 0, 0, 3, 232, 0, 0, 0, 1] =
     Inr [0x47535643, 1, 1, 65535, 7, 0, 42, 1000, 1] \<and>
   fst (recv_frame \<lparr>pending = [[0x47, 0x53, 0x56, 0x43, 1, 1, 0, 0, 0, 7, 0, 0, 0, 0, 0, 42,
       0, 0, 0, 0, 0, 0, 3, 232, 0, 0, 0, 1, 9]], recv_log = []\<rparr>) = Inr (7, 42, 1000, [9]) \<and>
   fst (recv_frame \<lparr>pending = [[0x47, 0x53, 0x56, 0x43, 1, 1, 255, 255, 0, 7, 0, 0, 0, 0, 0, 42,
       0, 0, 0, 0, 0, 0, 3, 232, 0, 0, 0, 1, 9]], recv_log = []\<rparr>) = Inr (7, 42, 1000, [9])"
  (is "unpack HEADER_FORMAT ?r0 = _ \<and> unpack HEADER_FORMAT ?r1 = _ \<and>
       fst (recv_frame ?s0) = _ \<and> fst (recv_frame ?s1) = _")
proof -
  let ?h0 = "\<lparr>h_magic = 0x47535643, h_version = 1, h_codec = 1, h_flags = 0,
     h_source_id = 7, h_reserved = 0, h_frame_id = 42, h_timestamp_us = 1000,
     h_payload_size = 1\<rparr>"
  let ?h1 = "\<lparr>h_magic = 0x47535643, h_version = 1, h_codec = 1, h_flags = 0xFFFF,
     h_source_id = 7, h_reserved = 0, h_frame_id = 42, h_timestamp_us = 1000,
     h_payload_size = 1\<rparr>"
  have u0: "unpack HEADER_FORMAT ?r0 = Inr [0x47535643, 1, 1, 0, 7, 0, 42, 1000, 1]"
    by (simp add: unpack_def calcsize_def HEADER_FORMAT_def be_uint_def)
  have u1: "unpack HEADER_FORMAT ?r1 = Inr [0x47535643, 1, 1, 65535, 7, 0, 42, 1000, 1]"
    by (simp add: unpack_def calcsize_def HEADER_FORMAT_def be_uint_def)
  have v0: "valid_header ?h0" and v1: "valid_header ?h1"
    by (simp_all add: valid_header_def)
  have c0: "nonempty_chunks ?s0" and c1: "nonempty_chunks ?s1"
    by (simp_all add: nonempty_chunks_def)
  have b0: "stream_bytes ?s0 = wire_header ?h0 @ [9] @ []"
    by (simp add: stream_bytes_def wire_header_def be_bytes_2 be_bytes_4 be_bytes_8)
  have b1: "stream_bytes ?s1 = wire_header ?h1 @ [9] @ []"
    by (simp add: stream_bytes_def wire_header_def be_bytes_2 be_bytes_4 be_bytes_8)
  have f0: "fst (recv_frame ?s0) = Inr (7, 42, 1000, [9])"
    using recv_frame_valid(1) [OF v0 _ c0 b0] by simp
  have f1: "fst (recv_frame ?s1) = Inr (7, 42, 1000, [9])"
    using recv_frame_valid(1) [OF v1 _ c1 b1] by simp
  from u0 u1 f0 f1 show ?thesis by blast
qed

text \<open>
  C8, amended. The flags are not validated and not returned: changing the flags of a header
  changes neither the result of \<open>parse_header\<close> (accepted or rejected, and with what)
  nor the result of the frame extraction.
\<close>

theorem flags_unvalidated_and_dropped:
  "parse_header (wire_header (h\<lparr>h_flags := fl\<rparr>)) = parse_header (wire_header h) \<and>
   (nonempty_chunks s \<and> nonempty_chunks t \<and> stream_bytes s = wire_header h @ rest \<and>
    stream_bytes t = wire_header (h\<lparr>h_flags := fl\<rparr>) @ rest \<longrightarrow>
      fst (recv_frame s) = fst (recv_frame t))"
proof (intro conjI impI)
  show p: "parse_header (wire_header (h\<lparr>h_flags := fl\<rparr>)) = parse_header (wire_header h)"
    by (simp add: parse_header_wire)
  assume a: "nonempty_chunks s \<and> nonempty_chunks t \<and> stream_bytes s = wire_header h @ rest \<and>
    stream_bytes t = wire_header (h\<lparr>h_flags := fl\<rparr>) @ rest"
  then have s: "nonempty_chunks s" and t: "nonempty_chunks t"
    and bs: "stream_bytes s = wire_header h @ rest"
    and bt: "stream_bytes t = wire_header (h\<lparr>h_flags := fl\<rparr>) @ rest"
    by simp_all
  show "fst (recv_frame s) = fst (recv_frame t)"
    unfolding recv_frame_nonempty(1) [OF s] recv_frame_nonempty(1) [OF t] bs bt
    by (simp add: length_wire_header p split: sum.split)
qed

text \<open>The theorem at a valid header whose flags are changed from 0 to 65535.\<close>

theorem flags_unvalidated_and_dropped_witness:
  "parse_header (wire_header \<lparr>h_magic = 0x47535643, h_version = 1, h_codec = 1,
     h_flags = 0xFFFF, h_source_id = 7, h_reserved = 0, h_frame_id = 42, h_timestamp_us = 1000,
     h_payload_size = 1\<rparr>) = Inr (7, 42, 1000, 1) \<and>
   nonempty_chunks \<lparr>pending = [[0x47, 0x53, 0x56, 0x43, 1, 1, 0, 0, 0, 7, 0, 0, 0, 0, 0, 42,
       0, 0, 0, 0, 0, 0, 3, 232, 0, 0, 0, 1, 9]], recv_log = []\<rparr> \<and>
   nonempty_chunks \<lparr>pending = [[0x47, 0x53, 0x56, 0x43, 1, 1, 255, 255, 0, 7, 0, 0, 0, 0, 0, 42,
       0, 0, 0, 0, 0, 0, 3, 232], [0, 0, 0, 1, 9]], recv_log = []\<rparr> \<and>
   fst (recv_frame \<lparr>pending = [[0x47, 0x53, 0x56, 0x43, 1, 1, 0, 0, 0, 7, 0, 0, 0, 0, 0, 42,
       0, 0, 0, 0, 0, 0, 3, 232, 0, 0, 0, 1, 9]], recv_log = []\<rparr>) =
   fst (recv_frame \<lparr>pending = [[0x47, 0x53, 0x56, 0x43, 1, 1, 255, 255, 0, 7, 0, 0, 0, 0, 0, 42,
       0, 0, 0, 0, 0, 0, 3, 232], [0, 0, 0, 1, 9]], recv_log = []\<rparr>)"
  (is "_ \<and> nonempty_chunks ?s \<and> nonempty_chunks ?t \<and> _")
proof -
  let ?h = "\<lparr>h_magic = 0x47535643, h_version = 1, h_codec = 1, h_flags = 0,
     h_source_id = 7, h_reserved = 0, h_frame_id = 42, h_timestamp_us = 1000,
     h_payload_size = 1\<rparr>"
  have cs: "nonempty_chunks ?s" and ct: "nonempty_chunks ?t"
    by (simp_all add: nonempty_chunks_def)
  have bs: "stream_bytes ?s = wire_header ?h @ [9]"
    by (simp add: stream_bytes_def wire_header_def be_bytes_2 be_bytes_4 be_bytes_8)
  have bt: "stream_bytes ?t = wire_header (?h\<lparr>h_flags := 0xFFFF\<rparr>) @ [9]"
    by (simp add: stream_bytes_def wire_header_def be_bytes_2 be_bytes_4 be_bytes_8)
  have p0: "parse_header (wire_header ?h) = Inr (7, 42, 1000, 1)"
    by (simp add: parse_header_wire)
  note t = flags_unvalidated_and_dropped [where h = "?h" and fl = "0xFFFF" and s = "?s"
      and t = "?t" and rest = "[9]"]
  from t p0 have p: "parse_header (wire_header (?h\<lparr>h_flags := 0xFFFF\<rparr>)) = Inr (7, 42, 1000, 1)"
    by simp
  from t cs ct bs bt have f: "fst (recv_frame ?s) = fst (recv_frame ?t)"
    by blast
  from p cs ct f show ?thesis by simp
qed

text \<open>
  C9. A read of zero bytes returns the empty buffer and leaves the socket untouched, its
  log of reads included. So a valid frame with payload size 0 decodes to an empty payload,
  the socket after the extraction is the socket after the header read, and exactly the 28
  header bytes have been consumed.
\<close>

theorem zero_payload_frame:
  "recv_exact sock 0 = (Inr [], sock) \<and>
   (valid_header h \<and> h_payload_size h = 0 \<and> nonempty_chunks sock \<and>
    stream_bytes sock = wire_header h @ rest \<longrightarrow>
      fst (recv_frame sock) =
        Inr (uint (h_source_id h), uint (h_frame_id h), uint (h_timestamp_us h), []) \<and>
      snd (recv_frame sock) = snd (recv_exact sock HEADER_SIZE) \<and>
      stream_bytes (snd (recv_frame sock)) = rest)"
proof (intro conjI impI)
  show "recv_exact sock 0 = (Inr [], sock)" by (rule recv_exact_zero)
next
  assume a: "valid_header h \<and> h_payload_size h = 0 \<and> nonempty_chunks sock \<and>
    stream_bytes sock = wire_header h @ rest"
  then have p: "parse_header (wire_header h) =
      Inr (uint (h_source_id h), uint (h_frame_id h), uint (h_timestamp_us h), 0)"
    by (simp add: parse_header_wire valid_header_def)
  from a obtain sock1 where hd: "recv_exact sock HEADER_SIZE = (Inr (wire_header h), sock1)"
    and sb: "stream_bytes sock1 = rest"
    by (auto elim: recv_exact_header)
  have rf: "recv_frame sock =
      (Inr (uint (h_source_id h), uint (h_frame_id h), uint (h_timestamp_us h), []), sock1)"
    by (simp add: recv_frame_def hd p recv_exact_zero)
  show "fst (recv_frame sock) =
      Inr (uint (h_source_id h), uint (h_frame_id h), uint (h_timestamp_us h), [])"
    by (simp add: rf)
  show "snd (recv_frame sock) = snd (recv_exact sock HEADER_SIZE)"
    by (simp add: rf hd)
  show "stream_bytes (snd (recv_frame sock)) = rest"
    by (simp add: rf sb)
qed

text \<open>The theorem at an empty frame followed by the first byte of the next one.\<close>

theorem zero_payload_frame_witness:
  "valid_header \<lparr>h_magic = 0x47535643, h_version = 1, h_codec = 1, h_flags = 0,
     h_source_id = 7, h_reserved = 0, h_frame_id = 42, h_timestamp_us = 1000,
     h_payload_size = 0\<rparr> \<and>
   nonempty_chunks \<lparr>pending = [[0x47, 0x53, 0x56, 0x43, 1, 1, 0, 0, 0, 7, 0, 0],
       [0, 0, 0, 42, 0, 0, 0, 0, 0, 0, 3, 232, 0, 0, 0, 0, 0x47]], recv_log = []\<rparr> \<and>
   fst (recv_frame \<lparr>pending = [[0x47, 0x53, 0x56, 0x43, 1, 1, 0, 0, 0, 7, 0, 0],
       [0, 0, 0, 42, 0, 0, 0, 0, 0, 0, 3, 232, 0, 0, 0, 0, 0x47]], recv_log = []\<rparr>) =
     Inr (7, 42, 1000, []) \<and>
   stream_bytes (snd (recv_frame \<lparr>pending = [[0x47, 0x53, 0x56, 0x43, 1, 1, 0, 0, 0, 7, 0, 0],
       [0, 0, 0, 42, 0, 0, 0, 0, 0, 0, 3, 232, 0, 0, 0, 0, 0x47]], recv_log = []\<rparr>)) = [0x47]"
  (is "valid_header ?h \<and> nonempty_chunks ?s \<and> _")
proof -
  have v: "valid_header ?h" by (simp add: valid_header_def)
  have z: "h_payload_size ?h = 0" by simp
  have c: "nonempty_chunks ?s" by (simp add: nonempty_chunks_def)
  have b: "stream_bytes ?s = wire_header ?h @ [0x47]"
    by (simp add: stream_bytes_def wire_header_def be_bytes_2 be_bytes_4 be_bytes_8)
  from zero_payload_frame [where sock = "?s" and h = "?h" and rest = "[0x47]"] v z c b
  have "fst (recv_frame ?s) =
      Inr (uint (h_source_id ?h), uint (h_frame_id ?h), uint (h_timestamp_us ?h), []) \<and>
    stream_bytes (snd (recv_frame ?s)) = [0x47]"
    by blast
  with v c show ?thesis by simp
qed

text \<open>
  C10. Two 28-byte headers that agree on magic, version, codec and payload size are both
  accepted or both rejected with the same error, whatever their flags, source id, reserved
  field, frame id and timestamp are. (\<open>map_sum\<close> keeps the error and forgets the
  accepted fields.)
\<close>

theorem validation_ignores_other_fields:
  assumes "unpack HEADER_FORMAT raw1 =
     Inr [magic, version, codec, flags1, source_id1, reserved1, frame_id1, timestamp_us1,
          payload_size]"
    and "unpack HEADER_FORMAT raw2 =
     Inr [magic, version, codec, flags2, source_id2, reserved2, frame_id2, timestamp_us2,
          payload_size]"
  shows "map_sum id (\<lambda>accepted. ()) (parse_header raw1) =
         map_sum id (\<lambda>accepted. ()) (parse_header raw2)"
  by (simp add: parse_header_def assms)

text \<open>The theorem at two headers with an unsupported codec that differ in all five
  other fields.\<close>

theorem validation_ignores_other_fields_witness:
  "unpack HEADER_FORMAT [0x47, 0x53, 0x56, 0x43, 1, 2, 0, 0, 0, 7, 0, 0, 0, 0, 0, 42,
       0, 0, 0, 0, 0, 0, 3, 232, 0, 0, 0, 3] =
     Inr [0x47535643, 1, 2, 0, 7, 0, 42, 1000, 3] \<and>
   unpack HEADER_FORMAT [0x47, 0x53, 0x56, 0x43, 1, 2, 255, 255, 0, 8, 1, 1, 0, 0, 0, 43,
       0, 0, 0, 0, 0, 0, 7, 208, 0, 0, 0, 3] =
     Inr [0x47535643, 1, 2, 65535, 8, 257, 43, 2000, 3] \<and>
   parse_header [0x47, 0x53, 0x56, 0x43, 1, 2, 0, 0, 0, 7, 0, 0, 0, 0, 0, 42,
       0, 0, 0, 0, 0, 0, 3, 232, 0, 0, 0, 3] = Inl (ValueError ''unsupported codec: '' 2) \<and>
   parse_header [0x47, 0x53, 0x56, 0x43, 1, 2, 255, 255, 0, 8, 1, 1, 0, 0, 0, 43,
       0, 0, 0, 0, 0, 0, 7, 208, 0, 0, 0, 3] = Inl (ValueError ''unsupported codec: '' 2)"
  (is "unpack HEADER_FORMAT ?r1 = _ \<and> unpack HEADER_FORMAT ?r2 = _ \<and> _")
proof -
  have u1: "unpack HEADER_FORMAT ?r1 = Inr [0x47535643, 1, 2, 0, 7, 0, 42, 1000, 3]"
    by (simp add: unpack_def calcsize_def HEADER_FORMAT_def be_uint_def)
  have u2: "unpack HEADER_FORMAT ?r2 = Inr [0x47535643, 1, 2, 65535, 8, 257, 43, 2000, 3]"
    by (simp add: unpack_def calcsize_def HEADER_FORMAT_def be_uint_def)
  have p1: "parse_header ?r1 = Inl (ValueError ''unsupported codec: '' 2)"
    by (simp add: parse_header_def u1 STREAM_MAGIC_def STREAM_VERSION_def STREAM_CODEC_JPEG_def)
  from validation_ignores_other_fields [OF u1 u2] p1
  have p2: "parse_header ?r2 = Inl (ValueError ''unsupported codec: '' 2)"
    by (cases "parse_header ?r2") simp_all
  from u1 u2 p1 p2 show ?thesis by blast
qed

end
